theory Spec2Isabelle
  imports Main "HOL-Library.Word" "HOL-Library.Extended_Nat"
begin

section \<open>JavaScript values used by \<^verbatim>\<open>src/index.ts\<close>\<close>

text \<open>
  A JavaScript string is a sequence of UTF-16 code units; \<^verbatim>\<open>s.length\<close> counts code
  units. A Node \<^verbatim>\<open>Buffer\<close> is a sequence of bytes. Numbers that the code uses as line
  numbers, columns and limits are integers.
\<close>

type_synonym code_unit = "16 word"
type_synonym jsstring = "code_unit list"
type_synonym byte = "8 word"

text \<open>An ASCII literal as a JavaScript string.\<close>

definition js :: "string \<Rightarrow> jsstring" where
  "js s = map (\<lambda>c. word_of_nat (of_char c)) s"

text \<open>
  The errors of the model: \<open>TypeError\<close> is a property read on \<^verbatim>\<open>undefined\<close>,
  \<open>Rejected\<close> is a rejected promise of an awaited call into the editor or the store.
\<close>

datatype js_error = TypeError | Rejected

subsection \<open>Whitespace, trimming, prefixes, joining, slicing\<close>

text \<open>
  The characters matched by the regular expression class \<^verbatim>\<open>\s\<close> and removed by
  \<^verbatim>\<open>String.prototype.trim\<close> (ECMAScript WhiteSpace and LineTerminator).
\<close>

definition is_space :: "code_unit \<Rightarrow> bool" where
  "is_space c \<longleftrightarrow>
     c = 0x09 \<or> c = 0x0A \<or> c = 0x0B \<or> c = 0x0C \<or> c = 0x0D \<or> c = 0x20 \<or> c = 0xA0 \<or>
     c = 0x1680 \<or> (0x2000 \<le> c \<and> c \<le> 0x200A) \<or> c = 0x2028 \<or> c = 0x2029 \<or>
     c = 0x202F \<or> c = 0x205F \<or> c = 0x3000 \<or> c = 0xFEFF"

text \<open>\<^verbatim>\<open>s.match(/^\s*/)[0]\<close>: the leading whitespace run (the match never fails).\<close>

definition match_leading_space :: "jsstring \<Rightarrow> jsstring" where
  "match_leading_space s = takeWhile is_space s"

text \<open>\<^verbatim>\<open>s.replace(/^\s*/, '')\<close>.\<close>

definition replace_leading_space :: "jsstring \<Rightarrow> jsstring" where
  "replace_leading_space s = dropWhile is_space s"

text \<open>\<^verbatim>\<open>s.trim()\<close>: whitespace removed at both ends.\<close>

definition trim :: "jsstring \<Rightarrow> jsstring" where
  "trim s = rev (dropWhile is_space (rev (dropWhile is_space s)))"

text \<open>\<^verbatim>\<open>/^\s*$/.test(s)\<close>.\<close>

definition is_blank :: "jsstring \<Rightarrow> bool" where
  "is_blank s \<longleftrightarrow> list_all is_space s"

text \<open>\<^verbatim>\<open>s.startsWith(p)\<close>.\<close>

definition startsWith :: "jsstring \<Rightarrow> jsstring \<Rightarrow> bool" where
  "startsWith s p \<longleftrightarrow> take (length p) s = p"

text \<open>\<^verbatim>\<open>xs.join(sep)\<close>.\<close>

fun join :: "jsstring \<Rightarrow> jsstring list \<Rightarrow> jsstring" where
  "join sep [] = []"
| "join sep [x] = x"
| "join sep (x # y # ys) = x @ sep @ join sep (y # ys)"

definition newline :: jsstring where
  "newline = [0x0A]"

definition tab :: jsstring where
  "tab = [0x09]"

text \<open>
  \<^verbatim>\<open>slice(start, end)\<close> of strings, arrays and buffers: a negative index counts from
  the end, both indices are clamped to the length, an absent end is the length.
\<close>

definition slice :: "'a list \<Rightarrow> int \<Rightarrow> int option \<Rightarrow> 'a list" where
  "slice xs start fin =
     (let len = int (length xs);
          from = (if start < 0 then max (len + start) 0 else min start len);
          to = (case fin of
                  None \<Rightarrow> len
                | Some e \<Rightarrow> if e < 0 then max (len + e) 0 else min e len)
      in take (nat (to - from)) (drop (nat from) xs))"

text \<open>
  \<^verbatim>\<open>s.slice(ind)\<close> where \<open>ind\<close> is the result of \<^verbatim>\<open>Math.min\<close> started at
  \<^verbatim>\<open>Infinity\<close>: a non-negative integer or \<^verbatim>\<open>Infinity\<close>.
\<close>

definition slice_from :: "jsstring \<Rightarrow> enat \<Rightarrow> jsstring" where
  "slice_from s ind = (case ind of enat n \<Rightarrow> slice s (int n) None | \<infinity> \<Rightarrow> [])"

text \<open>Decimal rendering of an integer, as a template literal renders a number.\<close>

fun digits :: "nat \<Rightarrow> jsstring" where
  "digits n = (if n < 10 then [word_of_nat (48 + n)]
               else digits (n div 10) @ [word_of_nat (48 + n mod 10)])"

definition number_string :: "int \<Rightarrow> jsstring" where
  "number_string i = (if i < 0 then js ''-'' @ digits (nat (- i)) else digits (nat i))"

subsection \<open>UTF-8: \<^verbatim>\<open>Buffer.from(s, 'utf8')\<close>, \<^verbatim>\<open>Buffer.byteLength\<close>, \<^verbatim>\<open>buf.toString('utf8')\<close>\<close>

definition is_high_surrogate :: "code_unit \<Rightarrow> bool" where
  "is_high_surrogate c \<longleftrightarrow> 0xD800 \<le> c \<and> c \<le> 0xDBFF"

definition is_low_surrogate :: "code_unit \<Rightarrow> bool" where
  "is_low_surrogate c \<longleftrightarrow> 0xDC00 \<le> c \<and> c \<le> 0xDFFF"

text \<open>
  The code points of a string. A surrogate pair is one code point; a surrogate that is
  not part of a pair is encoded as U+FFFD.
\<close>

definition lone_unit :: "code_unit \<Rightarrow> nat" where
  "lone_unit c = (if is_high_surrogate c \<or> is_low_surrogate c then 0xFFFD else unat c)"

fun code_points :: "jsstring \<Rightarrow> nat list" where
  "code_points [] = []"
| "code_points [c] = [lone_unit c]"
| "code_points (c # d # cs) =
     (if is_high_surrogate c \<and> is_low_surrogate d
      then (0x10000 + (unat c - 0xD800) * 0x400 + (unat d - 0xDC00)) # code_points cs
      else lone_unit c # code_points (d # cs))"

definition utf8_of_code_point :: "nat \<Rightarrow> byte list" where
  "utf8_of_code_point cp =
     (if cp < 0x80 then [word_of_nat cp]
      else if cp < 0x800 then
        [word_of_nat (0xC0 + cp div 0x40), word_of_nat (0x80 + cp mod 0x40)]
      else if cp < 0x10000 then
        [word_of_nat (0xE0 + cp div 0x1000), word_of_nat (0x80 + cp div 0x40 mod 0x40),
         word_of_nat (0x80 + cp mod 0x40)]
      else
        [word_of_nat (0xF0 + cp div 0x40000), word_of_nat (0x80 + cp div 0x1000 mod 0x40),
         word_of_nat (0x80 + cp div 0x40 mod 0x40), word_of_nat (0x80 + cp mod 0x40)])"

definition utf8_encode :: "jsstring \<Rightarrow> byte list" where
  "utf8_encode s = concat (map utf8_of_code_point (code_points s))"

definition byteLength :: "jsstring \<Rightarrow> int" where
  "byteLength s = int (length (utf8_encode s))"

text \<open>
  Decoding replaces every ill-formed byte sequence by U+FFFD, one per maximal subpart.
  The decoder state is the number of continuation bytes still needed, the code point
  accumulated so far and the bounds for the next continuation byte.
\<close>

datatype decoder = Decoder (needed: nat) (acc: nat) (lower: nat) (upper: nat)

definition idle :: decoder where
  "idle = Decoder 0 0 0x80 0xBF"

definition lead_byte :: "byte \<Rightarrow> nat list \<times> decoder" where
  "lead_byte b =
     (let n = unat b in
      if n \<le> 0x7F then ([n], idle)
      else if 0xC2 \<le> n \<and> n \<le> 0xDF then ([], Decoder 1 (n mod 0x20) 0x80 0xBF)
      else if 0xE0 \<le> n \<and> n \<le> 0xEF then
        ([], Decoder 2 (n mod 0x10) (if n = 0xE0 then 0xA0 else 0x80)
                                   (if n = 0xED then 0x9F else 0xBF))
      else if 0xF0 \<le> n \<and> n \<le> 0xF4 then
        ([], Decoder 3 (n mod 0x08) (if n = 0xF0 then 0x90 else 0x80)
                                   (if n = 0xF4 then 0x8F else 0xBF))
      else ([0xFFFD], idle))"

definition decode_byte :: "decoder \<Rightarrow> byte \<Rightarrow> nat list \<times> decoder" where
  "decode_byte st b =
     (let n = unat b in
      if needed st = 0 then lead_byte b
      else if n < lower st \<or> upper st < n then
        (case lead_byte b of (out, st') \<Rightarrow> (0xFFFD # out, st'))
      else
        (let cp = acc st * 0x40 + n mod 0x40 in
         if needed st = 1 then ([cp], idle)
         else ([], Decoder (needed st - 1) cp 0x80 0xBF)))"

fun decode_from :: "decoder \<Rightarrow> byte list \<Rightarrow> nat list" where
  "decode_from st [] = (if needed st = 0 then [] else [0xFFFD])"
| "decode_from st (b # bs) =
     (case decode_byte st b of (out, st') \<Rightarrow> out @ decode_from st' bs)"

definition utf16_of_code_point :: "nat \<Rightarrow> jsstring" where
  "utf16_of_code_point cp =
     (if cp < 0x10000 then [word_of_nat cp]
      else [word_of_nat (0xD800 + (cp - 0x10000) div 0x400),
            word_of_nat (0xDC00 + (cp - 0x10000) mod 0x400)])"

definition utf8_decode :: "byte list \<Rightarrow> jsstring" where
  "utf8_decode bs = concat (map utf16_of_code_point (decode_from idle bs))"

text \<open>The source's helper at the end of \<^verbatim>\<open>index.ts\<close>.\<close>

definition byteSlice :: "jsstring \<Rightarrow> int \<Rightarrow> int option \<Rightarrow> jsstring" where
  "byteSlice content start fin = utf8_decode (slice (utf8_encode content) start fin)"


section \<open>Data of the extension\<close>

text \<open>The options of the \<^verbatim>\<open>yank\<close> configuration section that the code reads.\<close>

record config =
  byteLengthLimit :: int
  highlight_enable :: bool
  highlight_duration :: int
  enableCompletion :: bool
  limit :: int

text \<open>An entry of the history store: what \<^verbatim>\<open>db.add\<close> receives and \<^verbatim>\<open>db.load\<close> returns.\<close>

record history_item =
  content :: "jsstring list"
  regtype :: jsstring
  path :: jsstring
  filetype :: jsstring

text \<open>The payload \<^verbatim>\<open>v:event\<close> of \<^verbatim>\<open>TextYankPost\<close>.\<close>

record yank_event =
  ev_regtype :: jsstring
  ev_operator :: jsstring
  ev_regcontents :: "jsstring list"

text \<open>
  The document of the buffer, as it is after \<^verbatim>\<open>doc.forceSync()\<close>. \<^verbatim>\<open>doc.getline\<close>
  is \<^verbatim>\<open>this.lines[line] || ''\<close>: a line that does not exist reads as the empty string.
\<close>

record document =
  doc_uri :: jsstring
  doc_filetype :: jsstring
  doc_lines :: "jsstring list"

definition getline :: "document \<Rightarrow> int \<Rightarrow> jsstring" where
  "getline doc i =
     (if 0 \<le> i \<and> i < int (length (doc_lines doc)) then doc_lines doc ! nat i else [])"

datatype position = Position (line: int) (character: int)

datatype range = Range (start: position) (finish: position)

text \<open>The \<^verbatim>\<open>option\<close> member of a completion context.\<close>

record complete_option =
  opt_input :: jsstring
  opt_line :: jsstring
  opt_col :: int

record completion_item =
  label :: jsstring
  insertText :: jsstring
  kind :: nat
  documentation_kind :: jsstring
  documentation_value :: jsstring

section \<open>The completion provider\<close>

definition markdownBlock :: "jsstring \<Rightarrow> jsstring \<Rightarrow> jsstring" where
  "markdownBlock code ft =
     (let ft1 = (if ft = js ''javascriptreact'' then js ''javascript'' else ft);
          ft2 = (if ft1 = js ''typescriptreact'' then js ''typescript'' else ft1)
      in js ''``` '' @ ft2 @ newline @ code @ newline @ js ''```'')"

text \<open>\<^verbatim>\<open>Array.prototype.filter\<close> and \<^verbatim>\<open>map\<close> with a callback that may throw.\<close>

fun filter_items :: "('a \<Rightarrow> js_error + bool) \<Rightarrow> 'a list \<Rightarrow> js_error + 'a list" where
  "filter_items p [] = Inr []"
| "filter_items p (x # xs) =
     (case p x of
        Inl e \<Rightarrow> Inl e
      | Inr b \<Rightarrow>
          (case filter_items p xs of
             Inl e \<Rightarrow> Inl e
           | Inr ys \<Rightarrow> Inr (if b then x # ys else ys)))"

fun map_items :: "('a \<Rightarrow> js_error + 'b) \<Rightarrow> 'a list \<Rightarrow> js_error + 'b list" where
  "map_items f [] = Inr []"
| "map_items f (x # xs) =
     (case f x of
        Inl e \<Rightarrow> Inl e
      | Inr y \<Rightarrow>
          (case map_items f xs of
             Inl e \<Rightarrow> Inl e
           | Inr ys \<Rightarrow> Inr (y # ys)))"

text \<open>
  The first filter callback (lines 101-104). \<^verbatim>\<open>o.content[0]\<close> is read only when the
  record is not a block record and its filetype is the document's; on an empty content it
  is \<^verbatim>\<open>undefined\<close> and \<^verbatim>\<open>.trim()\<close> throws.
\<close>

definition keep_item :: "jsstring \<Rightarrow> jsstring \<Rightarrow> history_item \<Rightarrow> js_error + bool" where
  "keep_item languageId inp o' =
     (if regtype o' = js ''^v'' then Inr False
      else if filetype o' = languageId then
        (case content o' of
           [] \<Rightarrow> Inl TypeError
         | s # _ \<Rightarrow> Inr (startsWith (trim s) inp))
      else Inr False)"

text \<open>The \<^verbatim>\<open>reduce\<close> of lines 111-114, started at \<^verbatim>\<open>Infinity\<close>.\<close>

definition common_indent :: "jsstring list \<Rightarrow> enat" where
  "common_indent cs = fold (\<lambda>s p. min (enat (length (match_leading_space s))) p) cs \<infinity>"

text \<open>The \<^verbatim>\<open>map\<close> of lines 115-118.\<close>

definition dedent_lines :: "jsstring list \<Rightarrow> jsstring list" where
  "dedent_lines cs =
     (let ind = common_indent cs
      in map (\<lambda>(i, s). if i = 0 then replace_leading_space s else slice_from s ind)
           (List.enumerate 0 cs))"

definition to_completion_item :: "history_item \<Rightarrow> js_error + completion_item" where
  "to_completion_item item =
     (let lines = dedent_lines (content item)
      in case content item of
           [] \<Rightarrow> Inl TypeError
         | s # _ \<Rightarrow>
             Inr \<lparr>label = trim s,
                  insertText = join newline lines,
                  kind = 15,
                  documentation_kind = js ''markdown'',
                  documentation_value = markdownBlock (join newline lines) (filetype item)\<rparr>)"

text \<open>
  \<^verbatim>\<open>provideCompletionItems\<close>. The result \<open>Inr None\<close> is a promise resolved with
  \<^verbatim>\<open>undefined\<close> (the bare \<^verbatim>\<open>return\<close> of line 98), \<open>Inr (Some xs)\<close> one resolved with
  the array \<open>xs\<close>, \<open>Inl e\<close> a rejected promise. \<open>loaded\<close> is the outcome of
  \<^verbatim>\<open>db.load()\<close>, which is awaited only after the two guards.
\<close>

definition provideCompletionItems ::
  "config \<Rightarrow> jsstring \<Rightarrow> complete_option option \<Rightarrow> js_error + history_item list
     \<Rightarrow> js_error + completion_item list option" where
  "provideCompletionItems cfg languageId option_ctx loaded =
     (if \<not> enableCompletion cfg then Inr (Some [])
      else case option_ctx of
        None \<Rightarrow> Inr None
      | Some opt \<Rightarrow>
          if opt_input opt = [] then Inr None
          else case loaded of
            Inl e \<Rightarrow> Inl e
          | Inr items \<Rightarrow>
              (case filter_items (keep_item languageId (opt_input opt)) (rev items) of
                 Inl e \<Rightarrow> Inl e
               | Inr items1 \<Rightarrow>
                   (let before_content = slice (opt_line opt) 0 (Some (opt_col opt));
                        items2 = (if \<not> is_blank before_content
                                  then filter (\<lambda>o'. regtype o' \<noteq> js ''V'') items1
                                  else items1);
                        items3 = slice items2 0 (Some (limit cfg))
                    in case map_items to_completion_item items3 of
                         Inl e \<Rightarrow> Inl e
                       | Inr cs \<Rightarrow> Inr (Some cs))))"


section \<open>The \<^verbatim>\<open>TextYankPost\<close> callback\<close>

subsection \<open>The editor and the store\<close>

text \<open>
  Every call that leaves the extension is recorded, in order: the requests to the editor,
  the overlay of the document, the timer that clears the overlay, and the append to the
  store. \<open>'v\<close> is the type of the dictionary that \<^verbatim>\<open>winsaveview()\<close> returns.
\<close>

datatype 'v request =
    Getpos
  | Win_getid
  | Winsaveview
  | Setpos int int
  | Col
  | Normal_j
  | Winrestview 'v
  | PauseNotification
  | MatchAddRanges "range list"
  | ResumeNotification
  | SetTimeout "int list" int
  | Db_add history_item

text \<open>
  The answers come from the environment \<open>'e\<close> (the editor together with the store). An
  awaited call answers with a value or rejects; \<^verbatim>\<open>doc.matchAddRanges\<close> is synchronous
  and returns the identifiers of the matches it queued.
\<close>

record ('e, 'v) nvim =
  getpos :: "'e \<Rightarrow> (js_error + int \<times> int) \<times> 'e"
  win_getid :: "'e \<Rightarrow> (js_error + int) \<times> 'e"
  winsaveview :: "'e \<Rightarrow> (js_error + 'v) \<times> 'e"
  setpos :: "int \<Rightarrow> int \<Rightarrow> 'e \<Rightarrow> (js_error + unit) \<times> 'e"
  col :: "'e \<Rightarrow> (js_error + int) \<times> 'e"
  normal_j :: "'e \<Rightarrow> (js_error + unit) \<times> 'e"
  winrestview :: "'v \<Rightarrow> 'e \<Rightarrow> (js_error + unit) \<times> 'e"
  matchAddRanges :: "range list \<Rightarrow> 'e \<Rightarrow> int list \<times> 'e"
  resumeNotification :: "'e \<Rightarrow> (js_error + unit) \<times> 'e"
  db_add :: "history_item \<Rightarrow> 'e \<Rightarrow> (js_error + unit) \<times> 'e"

record ('e, 'v) world =
  env :: 'e
  calls :: "'v request list"

type_synonym ('e, 'v, 'a) action = "('e, 'v) world \<Rightarrow> (js_error + 'a) \<times> ('e, 'v) world"

definition ret :: "'a \<Rightarrow> ('e, 'v, 'a) action" where
  "ret a w = (Inr a, w)"

definition throw :: "js_error \<Rightarrow> ('e, 'v, 'a) action" where
  "throw e w = (Inl e, w)"

text \<open>Sequencing: an error ends the callback where it happens.\<close>

definition seq :: "('e, 'v, 'a) action \<Rightarrow> ('a \<Rightarrow> ('e, 'v, 'b) action) \<Rightarrow> ('e, 'v, 'b) action" where
  "seq m f w = (case m w of (Inl e, w') \<Rightarrow> (Inl e, w') | (Inr a, w') \<Rightarrow> f a w')"

text \<open>An awaited call: the request is recorded, then it answers or rejects.\<close>

definition await :: "'v request \<Rightarrow> ('e \<Rightarrow> (js_error + 'a) \<times> 'e) \<Rightarrow> ('e, 'v, 'a) action" where
  "await rq answer w =
     (case answer (env w) of (r, e') \<Rightarrow> (r, w\<lparr>env := e', calls := calls w @ [rq]\<rparr>))"

text \<open>A synchronous call with a result, and one without.\<close>

definition invoke :: "'v request \<Rightarrow> ('e \<Rightarrow> 'a \<times> 'e) \<Rightarrow> ('e, 'v, 'a) action" where
  "invoke rq answer w =
     (case answer (env w) of (a, e') \<Rightarrow> (Inr a, w\<lparr>env := e', calls := calls w @ [rq]\<rparr>))"

definition notify :: "'v request \<Rightarrow> ('e, 'v, unit) action" where
  "notify rq w = (Inr (), w\<lparr>calls := calls w @ [rq]\<rparr>)"

subsection \<open>The ranges of each register type\<close>

text \<open>
  Block selection (lines 51-59): the loop variable \<open>i\<close> runs from \<open>lnum\<close>, and
  \<^verbatim>\<open>regcontents[i - lnum]\<close> is the head of the fragments that are left.
\<close>

fun block_ranges ::
  "('e, 'v) nvim \<Rightarrow> document \<Rightarrow> int \<Rightarrow> jsstring list \<Rightarrow> ('e, 'v, range list) action" where
  "block_ranges api doc i [] = ret []"
| "block_ranges api doc i (fragment # rest) =
     seq (await Col (col api)) (\<lambda>c.
       let line = getline doc (i - 1);
           startCharacter = int (length (byteSlice line 0 (Some (c - 1))));
           start = Position (i - 1) startCharacter;
           end' = Position (i - 1) (startCharacter + int (length fragment))
       in seq (await Normal_j (normal_j api)) (\<lambda>_.
            seq (block_ranges api doc (i + 1) rest) (\<lambda>ranges.
              ret (Range start end' # ranges))))"

text \<open>
  Character selection (lines 62-65). With no captured line,
  \<^verbatim>\<open>regcontents[regcontents.length - 1]\<close> is \<^verbatim>\<open>undefined\<close> and reading its length throws.
\<close>

definition char_range :: "int \<Rightarrow> int \<Rightarrow> jsstring list \<Rightarrow> js_error + range" where
  "char_range lnum character' regcontents =
     (if regcontents = [] then Inl TypeError
      else
        let start = Position (lnum - 1) character';
            endCharacter = (if length regcontents = 1
                            then character' + int (length (regcontents ! 0)) - 1
                            else int (length (regcontents ! (length regcontents - 1))));
            end' = Position (lnum + int (length regcontents) - 2) endCharacter
        in Inr (Range start end'))"

text \<open>Line selection (lines 67-70).\<close>

definition line_ranges :: "document \<Rightarrow> int \<Rightarrow> jsstring list \<Rightarrow> range list" where
  "line_ranges doc lnum regcontents =
     map (\<lambda>i. let line = getline doc (i - 1)
              in Range (Position (i - 1) 0) (Position (i - 1) (int (length line))))
       [lnum ..  lnum + int (length regcontents) - 1]"

subsection \<open>The callback\<close>

text \<open>
  How the highlight block of lines 40-82 is left: by \<^verbatim>\<open>return\<close>, or at its end. The
  window identifier that \<^verbatim>\<open>win_getid\<close> answers is assigned to a variable that is never
  read.
\<close>

datatype flow = Return | Fallthrough

text \<open>
  Lines 47-73, the branch on the register type: \<open>None\<close> is the \<^verbatim>\<open>return\<close> of line 72,
  \<open>Some ranges\<close> the array that the other branches have filled.
\<close>

definition build_ranges ::
  "('e, 'v) nvim \<Rightarrow> document \<Rightarrow> yank_event \<Rightarrow> int \<Rightarrow> int \<Rightarrow> int
     \<Rightarrow> ('e, 'v, range list option) action" where
  "build_ranges api doc event lnum col' character' =
     (if startsWith (ev_regtype event) [0x16] then
        seq (await Winsaveview (winsaveview api)) (\<lambda>view.
          seq (await (Setpos lnum col') (setpos api lnum col')) (\<lambda>_.
            seq (block_ranges api doc lnum (ev_regcontents event)) (\<lambda>ranges.
              seq (await (Winrestview view) (winrestview api view)) (\<lambda>_.
                ret (Some ranges)))))
      else if ev_regtype event = js ''v'' then
        (case char_range lnum character' (ev_regcontents event) of
           Inl e \<Rightarrow> throw e
         | Inr r \<Rightarrow> ret (Some [r]))
      else if ev_regtype event = js ''V'' then
        ret (Some (line_ranges doc lnum (ev_regcontents event)))
      else ret None)"

definition highlight ::
  "config \<Rightarrow> ('e, 'v) nvim \<Rightarrow> document \<Rightarrow> yank_event \<Rightarrow> int \<Rightarrow> int \<Rightarrow> int
     \<Rightarrow> ('e, 'v, flow) action" where
  "highlight cfg api doc event lnum col' character' =
     (let enable = highlight_enable cfg in
      if \<not> enable then ret Return
      else
        seq (await Win_getid (win_getid api)) (\<lambda>winid.
          let duration = highlight_duration cfg in
          seq (build_ranges api doc event lnum col' character') (\<lambda>built.
            case built of
              None \<Rightarrow> ret Return
            | Some ranges \<Rightarrow>
                seq (notify PauseNotification) (\<lambda>_.
                  seq (invoke (MatchAddRanges ranges) (matchAddRanges api ranges)) (\<lambda>ids.
                    seq (await ResumeNotification (resumeNotification api)) (\<lambda>_.
                      seq (if ids \<noteq> [] then notify (SetTimeout ids duration) else ret ()) (\<lambda>_.
                        ret Fallthrough)))))))"

definition callback ::
  "config \<Rightarrow> ('e, 'v) nvim \<Rightarrow> yank_event \<Rightarrow> document option \<Rightarrow> ('e, 'v, unit) action" where
  "callback cfg api event doc_opt =
     (case doc_opt of
        None \<Rightarrow> ret ()
      | Some doc \<Rightarrow>
          let len = fold (\<lambda>s len. len + byteLength s) (ev_regcontents event) 0 in
          if len > byteLengthLimit cfg then ret ()
          else
            seq (await Getpos (getpos api)) (\<lambda>(lnum, col').
              let character' = int (length (byteSlice (getline doc (lnum - 1)) 0 (Some col'))) in
              seq (if ev_operator event = js ''y''
                   then highlight cfg api doc event lnum col' character'
                   else ret Fallthrough) (\<lambda>fl.
                case fl of
                  Return \<Rightarrow> ret ()
                | Fallthrough \<Rightarrow>
                    let content' = join newline (ev_regcontents event) in
                    if length content' < 4 then ret ()
                    else
                      let path' = doc_uri doc @ tab @ number_string lnum @ tab @ number_string col';
                          regtype' = (if startsWith (ev_regtype event) [0x16]
                                      then js ''^v'' else ev_regtype event);
                          item = \<lparr>content = ev_regcontents event, regtype = regtype',
                                  path = path', filetype = doc_filetype doc\<rparr>
                      in await (Db_add item) (db_add api item))))"

text \<open>The requests of a run, and the records handed to the store in it.\<close>

definition highlights :: "'v request list \<Rightarrow> range list list" where
  "highlights rs = concat (map (\<lambda>r. case r of MatchAddRanges x \<Rightarrow> [x] | _ \<Rightarrow> []) rs)"

definition recorded :: "'v request list \<Rightarrow> history_item list" where
  "recorded rs = concat (map (\<lambda>r. case r of Db_add x \<Rightarrow> [x] | _ \<Rightarrow> []) rs)"


section \<open>Vocabulary of the properties\<close>

text \<open>The length of the leading whitespace run of a line.\<close>

definition leading_space_length :: "jsstring \<Rightarrow> nat" where
  "leading_space_length s = length (takeWhile is_space s)"

text \<open>
  A position is inside the document when its line exists and its character is at most the
  character length of that line; a range is inside when both of its ends are.
\<close>

definition position_in_document :: "document \<Rightarrow> position \<Rightarrow> bool" where
  "position_in_document doc p \<longleftrightarrow>
     0 \<le> line p \<and> line p < int (length (doc_lines doc)) \<and>
     0 \<le> character p \<and> character p \<le> int (length (getline doc (line p)))"

definition range_in_document :: "document \<Rightarrow> range \<Rightarrow> bool" where
  "range_in_document doc r \<longleftrightarrow>
     position_in_document doc (start r) \<and> position_in_document doc (finish r)"

text \<open>The total UTF-8 byte length of the captured lines, as lines 32-35 compute it.\<close>

definition total_byte_length :: "yank_event \<Rightarrow> int" where
  "total_byte_length event = fold (\<lambda>s len. len + byteLength s) (ev_regcontents event) 0"

text \<open>An action that hands nothing to the store.\<close>

definition records_nothing :: "('e, 'v, 'a) action \<Rightarrow> bool" where
  "records_nothing m \<longleftrightarrow> (\<forall>w. recorded (calls (snd (m w))) = recorded (calls w))"

section \<open>Example inputs\<close>

text \<open>
  A small editor: its state is the cursor (line, column), which is also what
  \<^verbatim>\<open>winsaveview\<close> saves and \<^verbatim>\<open>winrestview\<close> puts back. The mark \<^verbatim>\<open>'[\<close> is at line 1,
  byte column 2. No call rejects.
\<close>

definition example_editor :: "(int \<times> int, int \<times> int) nvim" where
  "example_editor =
     \<lparr>getpos = (\<lambda>e. (Inr (1, 2), e)),
      win_getid = (\<lambda>e. (Inr 1000, e)),
      winsaveview = (\<lambda>e. (Inr e, e)),
      setpos = (\<lambda>l c e. (Inr (), (l, c))),
      col = (\<lambda>e. (Inr (snd e), e)),
      normal_j = (\<lambda>e. (Inr (), (fst e + 1, snd e))),
      winrestview = (\<lambda>v e. (Inr (), v)),
      matchAddRanges = (\<lambda>rs e. (map int [4 ..< 4 + length rs], e)),
      resumeNotification = (\<lambda>e. (Inr (), e)),
      db_add = (\<lambda>i e. (Inr (), e))\<rparr>"

text \<open>The same editor with a \<^verbatim>\<open>col('.')\<close> request that rejects.\<close>

definition failing_editor :: "(int \<times> int, int \<times> int) nvim" where
  "failing_editor = example_editor\<lparr>col := (\<lambda>e. (Inl Rejected, e))\<rparr>"

definition example_world :: "(int \<times> int, int \<times> int) world" where
  "example_world = \<lparr>env = (7, 7), calls = []\<rparr>"

definition example_config :: config where
  "example_config =
     \<lparr>byteLengthLimit = 10240, highlight_enable = True, highlight_duration = 500,
      enableCompletion = True, limit = 3\<rparr>"

definition example_document :: document where
  "example_document =
     \<lparr>doc_uri = js ''file:///a.py'', doc_filetype = js ''python'',
      doc_lines = [js ''abcdef'', js ''ghijkl'', js ''mn'']\<rparr>"

definition yank_chars :: yank_event where
  "yank_chars = \<lparr>ev_regtype = js ''v'', ev_operator = js ''y'', ev_regcontents = [js ''cdef'']\<rparr>"

definition yank_chars_two_lines :: yank_event where
  "yank_chars_two_lines =
     \<lparr>ev_regtype = js ''v'', ev_operator = js ''y'', ev_regcontents = [js ''cdef'', js ''gh'']\<rparr>"

definition yank_lines :: yank_event where
  "yank_lines =
     \<lparr>ev_regtype = js ''V'', ev_operator = js ''y'',
      ev_regcontents = [js ''abcdef'', js ''ghijkl'']\<rparr>"

definition yank_block :: yank_event where
  "yank_block =
     \<lparr>ev_regtype = 0x16 # js ''2'', ev_operator = js ''y'',
      ev_regcontents = [js ''cd'', js ''ij'']\<rparr>"

definition yank_unknown_mode :: yank_event where
  "yank_unknown_mode =
     \<lparr>ev_regtype = js ''x'', ev_operator = js ''y'', ev_regcontents = [js ''cdef'']\<rparr>"

definition yank_too_wide :: yank_event where
  "yank_too_wide =
     \<lparr>ev_regtype = js ''v'', ev_operator = js ''y'', ev_regcontents = [js ''cdefghij'']\<rparr>"

definition yank_huge :: yank_event where
  "yank_huge =
     \<lparr>ev_regtype = js ''v'', ev_operator = js ''y'',
      ev_regcontents = [replicate 10241 0x61]\<rparr>"

definition snippet_indented :: history_item where
  "snippet_indented =
     \<lparr>content = [js ''  for x:'', js ''      y'', js ''    z''], regtype = js ''V'',
      path = [], filetype = js ''python''\<rparr>"

definition snippet_trailing_space :: history_item where
  "snippet_trailing_space =
     \<lparr>content = [js ''foo ''], regtype = js ''v'', path = [], filetype = js ''python''\<rparr>"

definition snippet_foo :: history_item where
  "snippet_foo =
     \<lparr>content = [js ''foo'', js ''bar''], regtype = js ''v'', path = [],
      filetype = js ''python''\<rparr>"

definition typed_fo :: complete_option where
  "typed_fo = \<lparr>opt_input = js ''fo'', opt_line = js ''  fo'', opt_col = 2\<rparr>"


section \<open>Facts about strings and logs\<close>

lemma js_length: "length (js t) = length t"
  by (simp add: js_def)

lemma regtype_literals:
  "js ''v'' \<noteq> js ''V''" "js ''x'' \<noteq> js ''V''" "js ''x'' \<noteq> js ''v''"
  "js ''v'' \<noteq> js ''^v''" "js ''V'' \<noteq> js ''^v''" "js ''V'' \<noteq> js ''v''"
  "\<not> startsWith (js ''v'') [0x16]" "\<not> startsWith (js ''V'') [0x16]"
  "\<not> startsWith (js ''x'') [0x16]" "startsWith (0x16 # s) [0x16]"
  by (simp_all add: js_def startsWith_def)

lemma highlights_append: "highlights (xs @ ys) = highlights xs @ highlights ys"
  by (simp add: highlights_def)

lemma recorded_append: "recorded (xs @ ys) = recorded xs @ recorded ys"
  by (simp add: recorded_def)

lemma code_points_Cons:
  "\<not> is_high_surrogate c \<Longrightarrow> code_points (c # cs) = lone_unit c # code_points cs"
  by (cases cs) simp_all

lemma byteLength_replicate_a: "byteLength (replicate n 0x61) = int n"
proof -
  have "utf8_encode (replicate n 0x61) = replicate n 0x61"
  proof (induction n)
    case 0
    then show ?case by (simp add: utf8_encode_def)
  next
    case (Suc n)
    have "code_points (0x61 # replicate n 0x61) = lone_unit 0x61 # code_points (replicate n 0x61)"
      by (rule code_points_Cons) (simp add: is_high_surrogate_def)
    with Suc show ?case
      by (simp add: utf8_encode_def utf8_of_code_point_def lone_unit_def is_high_surrogate_def
          is_low_surrogate_def)
  qed
  then show ?thesis by (simp add: byteLength_def)
qed

lemma total_byte_length_huge: "total_byte_length yank_huge = 10241"
  by (simp add: total_byte_length_def yank_huge_def byteLength_replicate_a)

text \<open>The byte lengths and byte slices of the example inputs.\<close>

lemmas utf8_defs =
  byteLength_def byteSlice_def utf8_encode_def utf8_of_code_point_def lone_unit_def
  is_high_surrogate_def is_low_surrogate_def slice_def utf8_decode_def decode_byte_def
  lead_byte_def idle_def utf16_of_code_point_def

lemma example_byte_lengths:
  "byteLength (js ''cdef'') = 4" "byteLength (js ''gh'') = 2" "byteLength (js ''cd'') = 2"
  "byteLength (js ''ij'') = 2" "byteLength (js ''abcdef'') = 6"
  "byteLength (js ''ghijkl'') = 6" "byteLength (js ''cdefghij'') = 8"
  by (simp_all add: js_def utf8_defs)

lemma example_byte_slices:
  "length (byteSlice (js ''abcdef'') 0 (Some 2)) = 2"
  "length (byteSlice (js ''abcdef'') 0 (Some 1)) = 1"
  "length (byteSlice (js ''ghijkl'') 0 (Some 1)) = 1"
  by (simp_all add: js_def utf8_defs)

lemmas example_defs =
  example_editor_def failing_editor_def example_world_def example_config_def
  example_document_def

lemmas run_defs =
  callback_def highlight_def build_ranges_def seq_def await_def invoke_def notify_def ret_def
  throw_def char_range_def line_ranges_def getline_def total_byte_length_def

lemmas example_facts =
  example_byte_lengths example_byte_slices regtype_literals js_length newline_def

section \<open>The dedent of a snippet\<close>

lemma common_indent_fold:
  "fold (\<lambda>s p. min (enat (length (match_leading_space s))) p) cs a =
     (if cs = [] then a else min a (enat (Min (leading_space_length ` set cs))))"
proof (induction cs arbitrary: a)
  case Nil
  then show ?case by simp
next
  case (Cons c cs)
  show ?case
  proof (cases "cs = []")
    case True
    then show ?thesis
      by (simp add: match_leading_space_def leading_space_length_def min.commute)
  next
    case False
    let ?x = "enat (length (match_leading_space c))"
    let ?M = "enat (Min (leading_space_length ` set cs))"
    have "fold (\<lambda>s p. min (enat (length (match_leading_space s))) p) (c # cs) a =
            min (min ?x a) ?M"
      using Cons.IH [of "min ?x a"] False by simp
    also have "\<dots> = min a (min ?x ?M)"
      by (metis min.assoc min.commute)
    also have "min ?x ?M = enat (Min (leading_space_length ` set (c # cs)))"
      using False by (simp add: match_leading_space_def leading_space_length_def)
    finally show ?thesis by simp
  qed
qed

lemma common_indent_Min:
  "cs \<noteq> [] \<Longrightarrow> common_indent cs = enat (Min (leading_space_length ` set cs))"
  by (simp add: common_indent_def common_indent_fold)

lemma enumerate_map_tail:
  "map (\<lambda>(i, s). if i = 0 then f s else g s) (List.enumerate (Suc n) cs) = map g cs"
  by (induction cs arbitrary: n) simp_all

lemma slice_from_drop: "slice_from s (enat m) = drop m s"
  by (simp add: slice_from_def slice_def Let_def min_def)

lemma dedent_lines_Cons:
  "dedent_lines (c # cs) =
     dropWhile is_space c # map (drop (Min (leading_space_length ` set (c # cs)))) cs"
proof -
  have "common_indent (c # cs) = enat (Min (leading_space_length ` set (c # cs)))"
    by (rule common_indent_Min) simp
  then show ?thesis
    by (simp add: dedent_lines_def Let_def enumerate_map_tail replace_leading_space_def
        slice_from_drop del: set_simps)
qed


lemma drop_within_leading_space:
  "m \<le> leading_space_length s \<Longrightarrow> list_all is_space (take m s)"
proof -
  assume m: "m \<le> leading_space_length s"
  have "take m s = take m (takeWhile is_space s @ dropWhile is_space s)" by simp
  also have "\<dots> = take m (takeWhile is_space s)"
    using m unfolding leading_space_length_def by (simp del: takeWhile_dropWhile_id)
  finally have "set (take m s) \<subseteq> set (takeWhile is_space s)"
    by (simp add: set_take_subset)
  then show ?thesis
    by (auto simp: list_all_iff dest: set_takeWhileD)
qed

lemma leading_space_length_drop:
  "m \<le> leading_space_length s \<Longrightarrow>
     leading_space_length (drop m s) = leading_space_length s - m"
proof -
  assume m: "m \<le> leading_space_length s"
  have "drop m s = drop m (takeWhile is_space s @ dropWhile is_space s)" by simp
  also have "\<dots> = drop m (takeWhile is_space s) @ dropWhile is_space s"
    using m unfolding leading_space_length_def by (simp del: takeWhile_dropWhile_id)
  finally have d: "drop m s = drop m (takeWhile is_space s) @ dropWhile is_space s" .
  have all: "\<forall>x\<in>set (drop m (takeWhile is_space s)). is_space x"
    by (auto dest: in_set_dropD set_takeWhileD)
  have "takeWhile is_space (drop m s) = drop m (takeWhile is_space s)"
  proof (cases "dropWhile is_space s")
    case Nil
    with d all show ?thesis by (simp add: takeWhile_eq_all_conv)
  next
    case (Cons x xs)
    then have "\<not> is_space x" using hd_dropWhile [of is_space s] by auto
    with d all Cons show ?thesis by (simp add: takeWhile_append2)
  qed
  then show ?thesis by (simp add: leading_space_length_def)
qed

section \<open>The store is written only at the end of the callback\<close>

lemma records_nothing_ret: "records_nothing (ret a)"
  by (simp add: records_nothing_def ret_def)

lemma records_nothing_throw: "records_nothing (throw e)"
  by (simp add: records_nothing_def throw_def)

lemma records_nothing_await:
  "(\<And>x. rq \<noteq> Db_add x) \<Longrightarrow> records_nothing (await rq answer)"
  by (cases rq) (auto simp: records_nothing_def await_def recorded_def split: prod.splits)

lemma records_nothing_invoke:
  "(\<And>x. rq \<noteq> Db_add x) \<Longrightarrow> records_nothing (invoke rq answer)"
  by (cases rq) (auto simp: records_nothing_def invoke_def recorded_def split: prod.splits)

lemma records_nothing_notify:
  "(\<And>x. rq \<noteq> Db_add x) \<Longrightarrow> records_nothing (notify rq)"
  by (cases rq) (auto simp: records_nothing_def notify_def recorded_def)

lemma records_nothing_seq:
  assumes "records_nothing m" and "\<And>a. records_nothing (f a)"
  shows "records_nothing (seq m f)"
proof -
  have "recorded (calls (snd (seq m f w))) = recorded (calls w)" for w
  proof (cases "m w")
    case (Pair r w1)
    have m: "recorded (calls w1) = recorded (calls w)"
      using assms(1) Pair unfolding records_nothing_def by (metis snd_conv)
    show ?thesis
    proof (cases r)
      case (Inl e)
      with Pair m show ?thesis by (simp add: seq_def)
    next
      case (Inr a)
      have "recorded (calls (snd (f a w1))) = recorded (calls w1)"
        using assms(2) [of a] unfolding records_nothing_def by simp
      with Pair Inr m show ?thesis by (simp add: seq_def)
    qed
  qed
  then show ?thesis by (simp add: records_nothing_def)
qed

lemma records_nothing_block_ranges: "records_nothing (block_ranges api doc i frags)"
proof (induction frags arbitrary: i)
  case Nil
  then show ?case by (simp add: records_nothing_ret)
next
  case (Cons f fs)
  show ?case
    unfolding block_ranges.simps Let_def
    by (intro records_nothing_seq records_nothing_await records_nothing_ret Cons.IH) simp_all
qed

lemma records_nothing_build_ranges:
  "records_nothing (build_ranges api doc event lnum col' c)"
  unfolding build_ranges_def
  by (auto intro!: records_nothing_seq records_nothing_await records_nothing_ret
      records_nothing_throw records_nothing_block_ranges split: sum.splits)

lemma records_nothing_highlight:
  "records_nothing (highlight cfg api doc event lnum col' c)"
  unfolding highlight_def Let_def
  by (auto intro!: records_nothing_seq records_nothing_await records_nothing_ret
      records_nothing_invoke records_nothing_notify records_nothing_build_ranges
      split: option.splits)
lemma callback_recorded:
  "recorded (calls (snd (callback cfg api event doc_opt w))) = recorded (calls w) \<or>
   (\<exists>p ft. recorded (calls (snd (callback cfg api event doc_opt w))) =
          recorded (calls w) @
            [\<lparr>content = ev_regcontents event,
              regtype = (if startsWith (ev_regtype event) [0x16] then js ''^v''
                         else ev_regtype event),
              path = p, filetype = ft\<rparr>])"
proof (cases doc_opt)
  case None
  then show ?thesis by (simp add: callback_def ret_def)
next
  case (Some doc)
  show ?thesis
  proof (cases "getpos api (env w)")
    case (Pair r e1)
    show ?thesis
    proof (cases r)
      case (Inl e)
      with Some Pair show ?thesis
        by (simp add: callback_def ret_def seq_def await_def recorded_def)
    next
      case (Inr pos)
      obtain lnum col' where pos: "pos = (lnum, col')" by (cases pos)
      let ?w1 = "w\<lparr>env := e1, calls := calls w @ [Getpos]\<rparr>"
      let ?c = "int (length (byteSlice (getline doc (lnum - 1)) 0 (Some col')))"
      let ?h = "if ev_operator event = js ''y''
                then highlight cfg api doc event lnum col' ?c else ret Fallthrough"
      have w1: "recorded (calls ?w1) = recorded (calls w)" by (simp add: recorded_def)
      have "records_nothing ?h"
        by (simp add: records_nothing_highlight records_nothing_ret)
      then have h: "recorded (calls (snd (?h ?w1))) = recorded (calls w)"
        using w1 by (simp add: records_nothing_def)
      obtain r2 w2 where r2: "?h ?w1 = (r2, w2)" by (cases "?h ?w1")
      with h have w2: "recorded (calls w2) = recorded (calls w)" by simp
      show ?thesis
        using Some Pair Inr pos r2 w2
        by (auto simp: callback_def seq_def await_def ret_def recorded_append Let_def
            recorded_def
            split: sum.splits flow.splits prod.splits if_splits)
    qed
  qed
qed

section \<open>Block records and the completion filter\<close>

lemma filter_items_block:
  "filter_items (keep_item l i) (filter (\<lambda>o'. regtype o' \<noteq> js ''^v'') xs) = filter_items (keep_item l i) xs"
  by (induction xs) (auto simp: keep_item_def split: sum.splits)

lemma completion_ignores_block_records:
  "provideCompletionItems cfg l opt (Inr (filter (\<lambda>o'. regtype o' \<noteq> js ''^v'') items)) = provideCompletionItems cfg l opt (Inr items)"
  by (simp add: provideCompletionItems_def filter_items_block rev_filter split: option.splits)

lemma completion_drops_block_record:
  assumes "regtype item = js ''^v''"
  shows "provideCompletionItems cfg l opt (Inr (xs @ item # ys)) =
           provideCompletionItems cfg l opt (Inr (xs @ ys))"
proof -
  have "filter (\<lambda>o'. regtype o' \<noteq> js ''^v'') (xs @ item # ys) =
          filter (\<lambda>o'. regtype o' \<noteq> js ''^v'') (xs @ ys)"
    using assms by simp
  then show ?thesis
    using completion_ignores_block_records [of cfg l opt "xs @ item # ys"]
      completion_ignores_block_records [of cfg l opt "xs @ ys"]
    by simp
qed



section \<open>Trimming and prefixes\<close>

lemma startsWith_trailing_space:
  assumes ws: "\<forall>x\<in>set ws. is_space x" and ne: "inp \<noteq> []" and last: "\<not> is_space (last inp)"
  shows "startsWith (u @ ws) inp = startsWith u inp"
proof (cases "length inp \<le> length u")
  case True
  then show ?thesis by (simp add: startsWith_def)
next
  case False
  then have long: "length u < length inp" by simp
  have "\<not> startsWith u inp"
    using long by (auto simp: startsWith_def)
  moreover have "\<not> startsWith (u @ ws) inp"
  proof
    assume "startsWith (u @ ws) inp"
    then have eq: "inp = u @ take (length inp - length u) ws"
      using long by (simp add: startsWith_def)
    then have "take (length inp - length u) ws \<noteq> []"
      using long by (metis append_Nil2 less_irrefl)
    then have "last inp = last (take (length inp - length u) ws)"
      using eq by (metis last_appendR)
    moreover have "last (take (length inp - length u) ws) \<in> set ws"
      using \<open>take (length inp - length u) ws \<noteq> []\<close>
      by (meson in_set_takeD last_in_set)
    ultimately show False using ws last by simp
  qed
  ultimately show ?thesis by simp
qed

lemma trim_decompose:
  "dropWhile is_space s =
     trim s @ rev (takeWhile is_space (rev (dropWhile is_space s)))"
proof -
  have "rev (dropWhile is_space s) =
          takeWhile is_space (rev (dropWhile is_space s)) @
          dropWhile is_space (rev (dropWhile is_space s))"
    by simp
  then have "rev (rev (dropWhile is_space s)) =
          rev (takeWhile is_space (rev (dropWhile is_space s)) @
               dropWhile is_space (rev (dropWhile is_space s)))"
    by (rule arg_cong)
  then show ?thesis by (simp add: trim_def del: takeWhile_dropWhile_id)
qed

lemma trim_prefix_leading_only:
  assumes "inp \<noteq> []" and "\<not> is_space (last inp)"
  shows "startsWith (trim s) inp = startsWith (replace_leading_space s) inp"
proof -
  let ?ws = "rev (takeWhile is_space (rev (dropWhile is_space s)))"
  have "\<forall>x\<in>set ?ws. is_space x" by (auto dest: set_takeWhileD)
  then have "startsWith (trim s @ ?ws) inp = startsWith (trim s) inp"
    using assms by (rule startsWith_trailing_space)
  then show ?thesis
    using trim_decompose [of s] by (simp add: replace_leading_space_def)
qed
lemma example_trims:
  "trim (js ''foo'') = js ''foo''" "trim (js ''foo '') = js ''foo''"
  "replace_leading_space (js ''foo '') = js ''foo ''"
  by (simp_all add: trim_def replace_leading_space_def js_def is_space_def)

lemma example_leading_space:
  "leading_space_length (js ''  for x:'') = 2" "leading_space_length (js ''      y'') = 6"
  "leading_space_length (js ''    z'') = 4"
  "dropWhile is_space (js ''  for x:'') = js ''for x:''"
  by (simp_all add: leading_space_length_def js_def is_space_def)

lemma js_op: "js ''d'' \<noteq> js ''y''" by (simp add: js_def)

section \<open>The requests of the block traversal\<close>

lemma block_ranges_calls:
  "block_ranges api doc i frags w = (Inr ranges, w') \<Longrightarrow>
     calls w' = calls w @ concat (replicate (length frags) [Col, Normal_j])"
proof (induction frags arbitrary: i w ranges)
  case Nil
  then show ?case by (simp add: ret_def)
next
  case (Cons f fs)
  then show ?case
    by (auto simp: seq_def await_def ret_def Let_def split: prod.splits sum.splits)
qed

lemma build_ranges_block_calls:
  assumes "startsWith (ev_regtype event) [0x16]"
    and "build_ranges api doc event lnum col' c w = (Inr built, w')"
  shows "\<exists>view e3 ranges. winsaveview api (env w) = (Inr view, e3) \<and> built = Some ranges \<and>
           calls w' = calls w @ [Winsaveview, Setpos lnum col'] @
             concat (replicate (length (ev_regcontents event)) [Col, Normal_j]) @
             [Winrestview view]"
  using assms
  by (auto simp: build_ranges_def seq_def await_def ret_def
      split: prod.splits sum.splits dest!: block_ranges_calls)

lemma block_ranges_shape:
  "block_ranges api doc i frags w = (Inr ranges, w') \<Longrightarrow>
     length ranges = length frags \<and>
     (\<forall>k < length frags.
        line (start (ranges ! k)) = i + int k - 1 \<and>
        line (finish (ranges ! k)) = i + int k - 1 \<and>
        0 \<le> character (start (ranges ! k)) \<and>
        character (finish (ranges ! k)) =
          character (start (ranges ! k)) + int (length (frags ! k)))"
proof (induction frags arbitrary: i w ranges w')
  case Nil
  then show ?case by (simp add: ret_def)
next
  case (Cons f fs)
  from Cons.prems obtain c e1 e2 rs w2 where
    rest: "block_ranges api doc (i + 1) fs
             (w\<lparr>env := e2, calls := calls w @ [Col, Normal_j]\<rparr>) = (Inr rs, w2)"
    and ranges: "ranges =
       Range (Position (i - 1) (int (length (byteSlice (getline doc (i - 1)) 0 (Some (c - 1))))))
         (Position (i - 1)
           (int (length (byteSlice (getline doc (i - 1)) 0 (Some (c - 1)))) + int (length f)))
       # rs"
    by (auto simp: seq_def await_def ret_def Let_def split: prod.splits sum.splits)
  from Cons.IH [OF rest] have ih: "length rs = length fs"
    "\<And>k. k < length fs \<Longrightarrow>
        line (start (rs ! k)) = i + 1 + int k - 1 \<and>
        line (finish (rs ! k)) = i + 1 + int k - 1 \<and>
        0 \<le> character (start (rs ! k)) \<and>
        character (finish (rs ! k)) = character (start (rs ! k)) + int (length (fs ! k))"
    by auto
  show ?case
  proof (intro conjI allI impI)
    show "length ranges = length (f # fs)" using ih(1) ranges by simp
  next
    fix k assume k: "k < length (f # fs)"
    show "line (start (ranges ! k)) = i + int k - 1"
      using ih(2) [of "k - 1"] k ranges by (cases k) auto
    show "line (finish (ranges ! k)) = i + int k - 1"
      using ih(2) [of "k - 1"] k ranges by (cases k) auto
    show "0 \<le> character (start (ranges ! k))"
      using ih(2) [of "k - 1"] k ranges by (cases k) auto
    show "character (finish (ranges ! k)) =
            character (start (ranges ! k)) + int (length ((f # fs) ! k))"
      using ih(2) [of "k - 1"] k ranges by (cases k) auto
  qed
qed

lemma upto_1_2: "[1..(2::int)] = [1, 2]"
  by (simp add: upto_rec1)

lemma example_builds:
  "build_ranges example_editor example_document yank_lines 1 2 2 example_world =
     (Inr (Some [Range (Position 0 0) (Position 0 6), Range (Position 1 0) (Position 1 6)]),
      example_world)"
  "build_ranges example_editor example_document yank_chars 1 2 2 example_world =
     (Inr (Some [Range (Position 0 2) (Position 0 5)]), example_world)"
  "build_ranges example_editor example_document yank_chars_two_lines 1 2 2 example_world =
     (Inr (Some [Range (Position 0 2) (Position 1 2)]), example_world)"
  "build_ranges example_editor example_document yank_block 1 2 2 example_world =
     (Inr (Some [Range (Position 0 1) (Position 0 3), Range (Position 1 1) (Position 1 3)]),
      \<lparr>env = (7, 7),
       calls = [Winsaveview, Setpos 1 2, Col, Normal_j, Col, Normal_j, Winrestview (7, 7)]\<rparr>)"
  by (simp_all add: yank_lines_def yank_chars_def yank_chars_two_lines_def yank_block_def
      example_defs run_defs example_facts upto_1_2)

lemma kept_has_first_line: "keep_item languageId inp o' = Inr True \<Longrightarrow> content o' \<noteq> []"
  by (auto simp: keep_item_def split: if_splits list.splits)

section \<open>Two runs of the model\<close>

text \<open>
  A record \<^verbatim>\<open>["foo", "bar"]\<close> for the typed prefix \<^verbatim>\<open>"fo"\<close> gives the label \<^verbatim>\<open>"foo"\<close> and
  the insert text \<^verbatim>\<open>"foo\nbar"\<close>; a capture of three characters is not recorded, one of
  four characters is.
\<close>

lemma scenario_completion:
  "provideCompletionItems example_config (js ''python'') (Some typed_fo) (Inr [snippet_foo]) =
     Inr (Some [\<lparr>label = js ''foo'', insertText = js ''foo'' @ newline @ js ''bar'', kind = 15,
                 documentation_kind = js ''markdown'',
                 documentation_value =
                   markdownBlock (js ''foo'' @ newline @ js ''bar'') (js ''python'')\<rparr>])"
proof -
  have keep: "keep_item (js ''python'') (js ''fo'') snippet_foo = Inr True"
    by (simp add: keep_item_def snippet_foo_def regtype_literals example_trims)
       (simp add: js_def startsWith_def)
  have blank: "is_blank (slice (js ''  fo'') 0 (Some 2))"
    by (simp add: is_blank_def slice_def js_def is_space_def)
  have lim: "slice [snippet_foo] 0 (Some 3) = [snippet_foo]"
    by (simp add: slice_def)
  have ded: "dedent_lines [js ''foo'', js ''bar''] = [js ''foo'', js ''bar'']"
    by (simp add: dedent_lines_Cons leading_space_length_def) (simp add: js_def is_space_def)
  have item: "to_completion_item snippet_foo =
     Inr \<lparr>label = js ''foo'', insertText = js ''foo'' @ newline @ js ''bar'', kind = 15,
          documentation_kind = js ''markdown'',
          documentation_value =
            markdownBlock (js ''foo'' @ newline @ js ''bar'') (js ''python'')\<rparr>"
    by (simp add: to_completion_item_def snippet_foo_def ded example_trims)
  show ?thesis
    by (simp add: provideCompletionItems_def example_config_def typed_fo_def keep blank item
        lim)
       (simp add: js_def)
qed

lemma scenario_four_character_floor:
  "recorded (calls (snd (callback example_config example_editor
     \<lparr>ev_regtype = js ''v'', ev_operator = js ''d'', ev_regcontents = [js ''abc'']\<rparr>
     (Some example_document) example_world))) = []"
  "length (recorded (calls (snd (callback example_config example_editor
     \<lparr>ev_regtype = js ''v'', ev_operator = js ''d'', ev_regcontents = [js ''abcd'']\<rparr>
     (Some example_document) example_world)))) = 1"
proof -
  have bl: "byteLength (js ''abc'') = 3" "byteLength (js ''abcd'') = 4"
    by (simp_all add: js_def utf8_defs)
  show "recorded (calls (snd (callback example_config example_editor
     \<lparr>ev_regtype = js ''v'', ev_operator = js ''d'', ev_regcontents = [js ''abc'']\<rparr>
     (Some example_document) example_world))) = []"
    by (simp add: example_defs run_defs example_facts recorded_def js_op bl)
  show "length (recorded (calls (snd (callback example_config example_editor
     \<lparr>ev_regtype = js ''v'', ev_operator = js ''d'', ev_regcontents = [js ''abcd'']\<rparr>
     (Some example_document) example_world)))) = 1"
    by (simp add: example_defs run_defs example_facts recorded_def js_op bl)
qed

section \<open>The byte ceiling\<close>

text \<open>
  C1. Claim: when the total UTF-8 byte length of the captured lines exceeds
  \<^verbatim>\<open>byteLengthLimit\<close>, recording is skipped but highlighting still proceeds. The code
  returns at line 36, before any highlight: for the event \<open>yank_huge\<close> of 10241 bytes under
  the ceiling 10240, in character mode, with the yank operator and highlighting enabled,
  no range is ever handed to \<^verbatim>\<open>matchAddRanges\<close>; under the ceiling 10241 the same event
  is highlighted.
\<close>

theorem over_limit_highlight_counterexample:
  "total_byte_length yank_huge = 10241 \<and> byteLengthLimit example_config = 10240 \<and>
   ev_regtype yank_huge = js ''v'' \<and> ev_operator yank_huge = js ''y'' \<and>
   highlight_enable example_config \<and>
   highlights (calls (snd (callback example_config example_editor yank_huge
     (Some example_document) example_world))) = [] \<and>
   highlights (calls (snd (callback (example_config\<lparr>byteLengthLimit := 10241\<rparr>)
     example_editor yank_huge (Some example_document) example_world))) =
     [[Range (Position 0 2) (Position 0 10242)]]"
proof -
  note len = total_byte_length_huge [unfolded total_byte_length_def]
  have "callback example_config example_editor yank_huge (Some example_document) example_world
          = (Inr (), example_world)"
    by (simp add: callback_def len example_config_def ret_def)
  moreover have "highlights (calls (snd (callback (example_config\<lparr>byteLengthLimit := 10241\<rparr>)
     example_editor yank_huge (Some example_document) example_world))) =
     [[Range (Position 0 2) (Position 0 10242)]]"
    using len
    by (simp add: yank_huge_def example_defs callback_def highlight_def build_ranges_def
        seq_def await_def invoke_def notify_def ret_def throw_def char_range_def getline_def
        example_facts highlights_def)
  ultimately show ?thesis
    by (simp add: total_byte_length_huge)
       (simp add: example_config_def example_world_def yank_huge_def highlights_def)
qed

text \<open>
  C1, as the code has it: over the ceiling the callback returns at once. It sends no
  request to the editor, highlights nothing and records nothing; the world is unchanged.
\<close>

theorem over_limit_returns_at_once:
  "byteLengthLimit cfg < total_byte_length event \<Longrightarrow>
     callback cfg api event doc_opt w = (Inr (), w)"
  by (simp add: callback_def total_byte_length_def ret_def split: option.splits)

theorem over_limit_returns_at_once_witness:
  "byteLengthLimit example_config < total_byte_length yank_huge \<and>
   callback example_config example_editor yank_huge (Some example_document) example_world =
     (Inr (), example_world)"
  using over_limit_returns_at_once
    [of example_config yank_huge example_editor "Some example_document" example_world]
  by (simp add: total_byte_length_huge example_config_def)

section \<open>Recording and the highlight block\<close>

text \<open>
  C2. Claim: a qualifying event (document present, within the byte ceiling, joined length
  at least 4) is recorded whatever the highlight path does. The code leaves the callback
  from inside the highlight block: with the yank operator, \<^verbatim>\<open>highlight.enable = false\<close>
  returns at line 43 and an unrecognised register type returns at line 72, both before
  \<^verbatim>\<open>db.add\<close>. The same event with another operator is recorded.
\<close>

theorem record_skipped_by_highlight_return:
  "total_byte_length yank_chars \<le> byteLengthLimit example_config \<and>
   4 \<le> length (join newline (ev_regcontents yank_chars)) \<and>
   recorded (calls (snd (callback (example_config\<lparr>highlight_enable := False\<rparr>) example_editor
     yank_chars (Some example_document) example_world))) = [] \<and>
   total_byte_length yank_unknown_mode \<le> byteLengthLimit example_config \<and>
   4 \<le> length (join newline (ev_regcontents yank_unknown_mode)) \<and>
   recorded (calls (snd (callback example_config example_editor
     yank_unknown_mode (Some example_document) example_world))) = [] \<and>
   recorded (calls (snd (callback (example_config\<lparr>highlight_enable := False\<rparr>) example_editor
     (yank_chars\<lparr>ev_operator := js ''d''\<rparr>) (Some example_document) example_world))) =
     [\<lparr>content = [js ''cdef''], regtype = js ''v'',
       path = js ''file:///a.py'' @ tab @ number_string 1 @ tab @ number_string 2,
       filetype = js ''python''\<rparr>]"
  by (simp add: yank_chars_def yank_unknown_mode_def example_defs run_defs example_facts
      recorded_def js_op)

section \<open>Character mode\<close>

text \<open>
  C3. For a character-mode yank (\<^verbatim>\<open>regtype == 'v'\<close>) that is highlighted, with the
  mark at line \<open>lnum\<close> and \<open>c\<close> the character column translated from the mark's byte
  column: exactly one range is handed to \<^verbatim>\<open>matchAddRanges\<close>. With a single captured
  line \<open>s\<close> it runs from \<open>(lnum - 1, c)\<close> to \<open>(lnum - 1, c + length s - 1)\<close>; with
  more than one captured line it ends at line \<open>lnum + N - 2\<close>, at the character length
  of the last captured line.
\<close>

theorem char_mode_range:
  assumes v: "ev_regtype event = js ''v''" and y: "ev_operator event = js ''y''"
    and en: "highlight_enable cfg" and lim: "total_byte_length event \<le> byteLengthLimit cfg"
    and gp: "getpos api (env w) = (Inr (lnum, col'), e1)"
    and wi: "win_getid api e1 = (Inr wid, e2)"
    and c: "c = int (length (byteSlice (getline doc (lnum - 1)) 0 (Some col')))"
  shows "(\<forall>s. ev_regcontents event = [s] \<longrightarrow>
            highlights (calls (snd (callback cfg api event (Some doc) w))) =
              highlights (calls w) @
                [[Range (Position (lnum - 1) c) (Position (lnum - 1) (c + int (length s) - 1))]])
       \<and> (1 < length (ev_regcontents event) \<longrightarrow>
            highlights (calls (snd (callback cfg api event (Some doc) w))) =
              highlights (calls w) @
                [[Range (Position (lnum - 1) c)
                    (Position (lnum + int (length (ev_regcontents event)) - 2)
                       (int (length (last (ev_regcontents event)))))]])"
  using assms regtype_literals(7)
  by (auto simp: callback_def highlight_def build_ranges_def seq_def await_def invoke_def
      notify_def ret_def throw_def char_range_def total_byte_length_def highlights_def
      Let_def last_conv_nth
      split: prod.splits sum.splits)

theorem char_mode_range_witness:
  "ev_regtype yank_chars_two_lines = js ''v'' \<and> ev_operator yank_chars_two_lines = js ''y'' \<and>
   ev_regtype yank_chars = js ''v'' \<and> ev_operator yank_chars = js ''y'' \<and>
   highlight_enable example_config \<and>
   total_byte_length yank_chars_two_lines \<le> byteLengthLimit example_config \<and>
   total_byte_length yank_chars \<le> byteLengthLimit example_config \<and>
   getpos example_editor (env example_world) = (Inr (1, 2), (7, 7)) \<and>
   win_getid example_editor (7, 7) = (Inr 1000, (7, 7)) \<and>
   1 < length (ev_regcontents yank_chars_two_lines) \<and>
   highlights (calls (snd (callback example_config example_editor yank_chars_two_lines
     (Some example_document) example_world))) = [[Range (Position 0 2) (Position 1 2)]] \<and>
   ev_regcontents yank_chars = [js ''cdef''] \<and>
   highlights (calls (snd (callback example_config example_editor yank_chars
     (Some example_document) example_world))) = [[Range (Position 0 2) (Position 0 5)]]"
  using char_mode_range
    [of yank_chars_two_lines example_config example_editor example_world 1 2 "(7, 7)" 1000
      "(7, 7)" 2 example_document]
    char_mode_range
    [of yank_chars example_config example_editor example_world 1 2 "(7, 7)" 1000
      "(7, 7)" 2 example_document]
  by (simp add: yank_chars_two_lines_def yank_chars_def example_defs total_byte_length_def
      example_facts getline_def highlights_def)

section \<open>Block mode and the window view\<close>

text \<open>
  C6. Claim: in block mode the window view is saved before the cursor traversal and
  restored afterwards on every exit path, also when a step of the traversal fails. The code
  has no handler around the traversal: when \<^verbatim>\<open>col('.')\<close> rejects, the callback ends
  there, after \<^verbatim>\<open>winsaveview\<close> and \<^verbatim>\<open>setpos\<close> and without any \<^verbatim>\<open>winrestview\<close>; the
  cursor stays where \<^verbatim>\<open>setpos\<close> put it.
\<close>

theorem block_view_not_restored_counterexample:
  "startsWith (ev_regtype yank_block) [0x16] \<and>
   callback example_config failing_editor yank_block (Some example_document) example_world =
     (Inl Rejected,
      \<lparr>env = (1, 2), calls = [Getpos, Win_getid, Winsaveview, Setpos 1 2, Col]\<rparr>)"
  by (simp add: yank_block_def example_defs run_defs example_facts)

text \<open>
  C6, as the code has it: when a highlighted block-mode yank runs to its end without a
  rejected call, the requests after \<^verbatim>\<open>win_getid\<close> are \<^verbatim>\<open>winsaveview\<close>, \<^verbatim>\<open>setpos\<close> at
  the mark, then \<^verbatim>\<open>col('.')\<close> and \<^verbatim>\<open>normal! j\<close> once per captured line, then
  \<^verbatim>\<open>winrestview\<close> with the very view that \<^verbatim>\<open>winsaveview\<close> answered.
\<close>

theorem block_view_restored_on_success:
  assumes block: "startsWith (ev_regtype event) [0x16]"
    and y: "ev_operator event = js ''y''"
    and en: "highlight_enable cfg"
    and lim: "total_byte_length event \<le> byteLengthLimit cfg"
    and ok: "fst (callback cfg api event (Some doc) w) = Inr ()"
  shows "\<exists>lnum col' wid view e1 e2 e3 rest.
           getpos api (env w) = (Inr (lnum, col'), e1) \<and>
           win_getid api e1 = (Inr wid, e2) \<and>
           winsaveview api e2 = (Inr view, e3) \<and>
           calls (snd (callback cfg api event (Some doc) w)) =
             calls w @ [Getpos, Win_getid, Winsaveview, Setpos lnum col'] @
               concat (replicate (length (ev_regcontents event)) [Col, Normal_j]) @
               [Winrestview view] @ rest"
proof -
  obtain r1 e1 where gp: "getpos api (env w) = (r1, e1)" by (cases "getpos api (env w)")
  from ok gp lim obtain lnum col' where r1: "r1 = Inr (lnum, col')"
    by (cases r1) (auto simp: callback_def seq_def await_def total_byte_length_def)
  obtain r2 e2 where wi: "win_getid api e1 = (r2, e2)" by (cases "win_getid api e1")
  from ok gp r1 lim y en wi obtain wid where r2: "r2 = Inr wid"
    by (cases r2)
       (auto simp: callback_def highlight_def seq_def await_def total_byte_length_def)
  let ?c = "int (length (byteSlice (getline doc (lnum - 1)) 0 (Some col')))"
  let ?w2 = "w\<lparr>env := e2, calls := calls w @ [Getpos, Win_getid]\<rparr>"
  obtain r3 w3 where br: "build_ranges api doc event lnum col' ?c ?w2 = (r3, w3)"
    by (cases "build_ranges api doc event lnum col' ?c ?w2")
  from ok gp r1 lim y en wi r2 br obtain built where r3: "r3 = Inr built"
    by (cases r3)
       (auto simp: callback_def highlight_def seq_def await_def total_byte_length_def)
  from build_ranges_block_calls [OF block br [unfolded r3]]
  obtain view e3 ranges where sv: "winsaveview api e2 = (Inr view, e3)"
    and built: "built = Some ranges"
    and c3: "calls w3 = calls w @ [Getpos, Win_getid] @ [Winsaveview, Setpos lnum col'] @
             concat (replicate (length (ev_regcontents event)) [Col, Normal_j]) @
             [Winrestview view]"
    by auto
  have "\<exists>rest. calls (snd (callback cfg api event (Some doc) w)) = calls w3 @ rest"
    using gp r1 lim y en wi r2 br r3 built
    by (auto simp: callback_def highlight_def seq_def await_def invoke_def notify_def ret_def
        total_byte_length_def Let_def split: prod.splits sum.splits)
  with c3 gp r1 wi r2 sv show ?thesis by auto
qed

theorem block_view_restored_on_success_witness:
  "startsWith (ev_regtype yank_block) [0x16] \<and> ev_operator yank_block = js ''y'' \<and>
   highlight_enable example_config \<and>
   total_byte_length yank_block \<le> byteLengthLimit example_config \<and>
   fst (callback example_config example_editor yank_block (Some example_document)
     example_world) = Inr () \<and>
   (\<exists>rest. calls (snd (callback example_config example_editor yank_block
              (Some example_document) example_world)) =
            [Getpos, Win_getid, Winsaveview, Setpos 1 2, Col, Normal_j, Col, Normal_j,
             Winrestview (7, 7)] @ rest)"
proof -
  have h: "startsWith (ev_regtype yank_block) [0x16]" "ev_operator yank_block = js ''y''"
    "highlight_enable example_config"
    "total_byte_length yank_block \<le> byteLengthLimit example_config"
    by (simp_all add: yank_block_def example_config_def total_byte_length_def example_facts)
  have ok: "fst (callback example_config example_editor yank_block (Some example_document)
     example_world) = Inr ()"
    by (simp add: yank_block_def example_defs run_defs example_facts)
  from block_view_restored_on_success [OF h ok]
  have "\<exists>rest. calls (snd (callback example_config example_editor yank_block
              (Some example_document) example_world)) =
            [Getpos, Win_getid, Winsaveview, Setpos 1 2, Col, Normal_j, Col, Normal_j,
             Winrestview (7, 7)] @ rest"
    by (auto simp: example_editor_def example_world_def yank_block_def
        numeral_2_eq_2)
  with h ok show ?thesis by simp
qed

section \<open>Ranges and the bounds of the document\<close>

text \<open>
  C9. Claim: every produced range lies inside the document, its characters not beyond the
  live lines. The code never compares a computed character with a live line: for the
  character-mode capture \<^verbatim>\<open>"cdefghij"\<close> at byte column 2 of the line \<^verbatim>\<open>"abcdef"\<close> it
  highlights up to character 9 of a line of length 6.
\<close>

theorem range_outside_document_counterexample:
  "ev_regtype yank_too_wide = js ''v'' \<and>
   highlights (calls (snd (callback example_config example_editor yank_too_wide
     (Some example_document) example_world))) = [[Range (Position 0 2) (Position 0 9)]] \<and>
   \<not> range_in_document example_document (Range (Position 0 2) (Position 0 9))"
  by (simp add: yank_too_wide_def example_defs run_defs example_facts highlights_def
      range_in_document_def position_in_document_def)

text \<open>
  C9, as the code has it. Let the affected lines \<open>lnum, ..., lnum + N - 1\<close> exist in the
  document. In line mode every range is inside the document. In character mode the one
  range is inside the document exactly when its start column is within the first line and
  the captured text fits: \<open>c + length s - 1\<close> within the line for a single captured
  line \<open>s\<close> (and not before its start), the length of the last captured line within the
  live last line otherwise. In block mode there is one range per captured line, and the
  \<open>k\<close>-th is inside the document exactly when its start column plus the length of the
  \<open>k\<close>-th captured fragment is within the live line.
\<close>

theorem ranges_in_document_iff_fit:
  assumes first: "1 \<le> lnum"
    and last: "lnum + int (length (ev_regcontents event)) - 1 \<le> int (length (doc_lines doc))"
    and c: "0 \<le> c"
    and built: "build_ranges api doc event lnum col' c w = (Inr (Some ranges), w')"
  shows "(ev_regtype event = js ''V'' \<longrightarrow> (\<forall>r \<in> set ranges. range_in_document doc r))
       \<and> (ev_regtype event = js ''v'' \<longrightarrow>
            (\<forall>s. ev_regcontents event = [s] \<longrightarrow>
               (\<exists>r. ranges = [r] \<and>
                  (range_in_document doc r \<longleftrightarrow>
                     c \<le> int (length (getline doc (lnum - 1))) \<and> 1 \<le> c + int (length s) \<and>
                     c + int (length s) - 1 \<le> int (length (getline doc (lnum - 1)))))) \<and>
            (1 < length (ev_regcontents event) \<longrightarrow>
               (\<exists>r. ranges = [r] \<and>
                  (range_in_document doc r \<longleftrightarrow>
                     c \<le> int (length (getline doc (lnum - 1))) \<and>
                     int (length (last (ev_regcontents event))) \<le>
                       int (length (getline doc
                         (lnum + int (length (ev_regcontents event)) - 2)))))))
       \<and> (startsWith (ev_regtype event) [0x16] \<longrightarrow>
            length ranges = length (ev_regcontents event) \<and>
            (\<forall>k < length (ev_regcontents event).
               range_in_document doc (ranges ! k) \<longleftrightarrow>
                 character (start (ranges ! k)) + int (length (ev_regcontents event ! k))
                   \<le> int (length (getline doc (lnum + int k - 1)))))"
proof (intro conjI impI)
  assume V: "ev_regtype event = js ''V''"
  then have "ranges = line_ranges doc lnum (ev_regcontents event)"
    using built regtype_literals by (simp add: build_ranges_def ret_def)
  then show "\<forall>r \<in> set ranges. range_in_document doc r"
    using first last
    by (auto simp: line_ranges_def range_in_document_def position_in_document_def Let_def)
next
  assume v: "ev_regtype event = js ''v''"
  then have cr: "char_range lnum c (ev_regcontents event) = Inr (hd ranges) \<and> ranges = [hd ranges]"
    using built regtype_literals
    by (auto simp: build_ranges_def ret_def throw_def split: sum.splits)
  show "\<forall>s. ev_regcontents event = [s] \<longrightarrow>
               (\<exists>r. ranges = [r] \<and>
                  (range_in_document doc r \<longleftrightarrow>
                     c \<le> int (length (getline doc (lnum - 1))) \<and> 1 \<le> c + int (length s) \<and>
                     c + int (length s) - 1 \<le> int (length (getline doc (lnum - 1)))))"
  proof (intro allI impI)
    fix s assume s: "ev_regcontents event = [s]"
    with cr have r: "hd ranges =
        Range (Position (lnum - 1) c) (Position (lnum - 1) (c + int (length s) - 1))"
      by (simp add: char_range_def)
    have "range_in_document doc (hd ranges) \<longleftrightarrow>
            c \<le> int (length (getline doc (lnum - 1))) \<and> 1 \<le> c + int (length s) \<and>
            c + int (length s) - 1 \<le> int (length (getline doc (lnum - 1)))"
      using first last c s unfolding r range_in_document_def
      by (auto simp: position_in_document_def)
    with cr show "\<exists>r. ranges = [r] \<and>
                  (range_in_document doc r \<longleftrightarrow>
                     c \<le> int (length (getline doc (lnum - 1))) \<and> 1 \<le> c + int (length s) \<and>
                     c + int (length s) - 1 \<le> int (length (getline doc (lnum - 1))))"
      by blast
  qed
  show "\<exists>r. ranges = [r] \<and>
                  (range_in_document doc r \<longleftrightarrow>
                     c \<le> int (length (getline doc (lnum - 1))) \<and>
                     int (length (last (ev_regcontents event))) \<le>
                       int (length (getline doc
                         (lnum + int (length (ev_regcontents event)) - 2))))"
    if many: "1 < length (ev_regcontents event)"
  proof -
    from many have ne: "ev_regcontents event \<noteq> []" by auto
    from cr many ne have r: "hd ranges =
        Range (Position (lnum - 1) c)
          (Position (lnum + int (length (ev_regcontents event)) - 2)
             (int (length (last (ev_regcontents event)))))"
      by (simp add: char_range_def last_conv_nth Let_def)
    have "range_in_document doc (hd ranges) \<longleftrightarrow>
            c \<le> int (length (getline doc (lnum - 1))) \<and>
            int (length (last (ev_regcontents event))) \<le>
              int (length (getline doc (lnum + int (length (ev_regcontents event)) - 2)))"
      using first last c many unfolding r range_in_document_def
      by (auto simp: position_in_document_def)
    with cr show ?thesis by blast
  qed
next
  assume b: "startsWith (ev_regtype event) [0x16]"
  from built b obtain w1 w2 where
    br: "block_ranges api doc lnum (ev_regcontents event) w1 = (Inr ranges, w2)"
    by (auto simp: build_ranges_def seq_def await_def ret_def split: prod.splits sum.splits)
  note shape = block_ranges_shape [OF br]
  show "length ranges = length (ev_regcontents event)" using shape by simp
  show "\<forall>k < length (ev_regcontents event).
               range_in_document doc (ranges ! k) \<longleftrightarrow>
                 character (start (ranges ! k)) + int (length (ev_regcontents event ! k))
                   \<le> int (length (getline doc (lnum + int k - 1)))"
  proof (intro allI impI)
    fix k assume k: "k < length (ev_regcontents event)"
    from shape k have sh:
      "line (start (ranges ! k)) = lnum + int k - 1"
      "line (finish (ranges ! k)) = lnum + int k - 1"
      "0 \<le> character (start (ranges ! k))"
      "character (finish (ranges ! k)) =
         character (start (ranges ! k)) + int (length (ev_regcontents event ! k))"
      by auto
    show "range_in_document doc (ranges ! k) \<longleftrightarrow>
            character (start (ranges ! k)) + int (length (ev_regcontents event ! k))
              \<le> int (length (getline doc (lnum + int k - 1)))"
      using first last k sh
      by (auto simp: range_in_document_def position_in_document_def)
  qed
qed

theorem ranges_in_document_iff_fit_witness:
  "(1::int) \<le> 1 \<and>
   1 + int (length (ev_regcontents yank_lines)) - 1 \<le> int (length (doc_lines example_document)) \<and>
   1 + int (length (ev_regcontents yank_block)) - 1 \<le> int (length (doc_lines example_document)) \<and>
   (0::int) \<le> 2 \<and>
   ev_regtype yank_lines = js ''V'' \<and> ev_regtype yank_chars = js ''v'' \<and>
   ev_regtype yank_chars_two_lines = js ''v'' \<and> startsWith (ev_regtype yank_block) [0x16] \<and>
   range_in_document example_document (Range (Position 0 0) (Position 0 6)) \<and>
   range_in_document example_document (Range (Position 1 0) (Position 1 6)) \<and>
   range_in_document example_document (Range (Position 0 2) (Position 0 5)) \<and>
   range_in_document example_document (Range (Position 0 2) (Position 1 2)) \<and>
   range_in_document example_document (Range (Position 0 1) (Position 0 3)) \<and>
   range_in_document example_document (Range (Position 1 1) (Position 1 3))"
  using ranges_in_document_iff_fit [OF _ _ _ example_builds(1)]
    ranges_in_document_iff_fit [OF _ _ _ example_builds(2)]
    ranges_in_document_iff_fit [OF _ _ _ example_builds(3)]
    ranges_in_document_iff_fit [OF _ _ _ example_builds(4)]
  by (simp add: yank_lines_def yank_chars_def yank_chars_two_lines_def yank_block_def
      example_document_def getline_def example_facts numeral_2_eq_2 less_Suc_eq)

section \<open>The completion provider\<close>

text \<open>
  C4. Claim: a completion request without typed input (no \<^verbatim>\<open>option\<close>, or an empty
  \<^verbatim>\<open>option.input\<close>) gets an empty candidate list, not an absent result. The code's bare
  \<^verbatim>\<open>return\<close> of line 98 resolves the promise with \<^verbatim>\<open>undefined\<close>: the result is
  \<open>Inr None\<close>, not \<open>Inr (Some [])\<close>.
\<close>

theorem provide_without_input_undefined:
  "provideCompletionItems example_config (js ''python'') None (Inr [snippet_foo]) = Inr None \<and>
   provideCompletionItems example_config (js ''python'') (Some (typed_fo\<lparr>opt_input := []\<rparr>))
     (Inr [snippet_foo]) = Inr None"
  by (simp add: provideCompletionItems_def example_config_def)

text \<open>
  C5. For a record with at least one content line (every record that survives the
  filters has one), the insert text is the lines joined by newlines, where the first line
  has lost all of its leading whitespace and every later line has lost exactly \<open>m\<close>
  characters, \<open>m\<close> being the minimum leading-whitespace length over all content lines.
  What a later line loses is whitespace only, and its own indentation shrinks by \<open>m\<close>.
\<close>

theorem insert_text_dedent:
  assumes "content item = first # rest"
  shows "\<exists>c m. to_completion_item item = Inr c
           \<and> m = Min (leading_space_length ` set (content item))
           \<and> insertText c = join newline (dropWhile is_space first # map (drop m) rest)
           \<and> (\<forall>s \<in> set rest. list_all is_space (take m s)
                  \<and> leading_space_length (drop m s) = leading_space_length s - m)"
proof -
  let ?m = "Min (leading_space_length ` set (first # rest))"
  have le: "?m \<le> leading_space_length s" if "s \<in> set rest" for s
    using that by (intro Min_le) auto
  have "to_completion_item item =
          Inr \<lparr>label = trim first,
               insertText = join newline (dropWhile is_space first # map (drop ?m) rest),
               kind = 15, documentation_kind = js ''markdown'',
               documentation_value =
                 markdownBlock (join newline (dropWhile is_space first # map (drop ?m) rest))
                   (filetype item)\<rparr>"
    using assms by (simp add: to_completion_item_def Let_def dedent_lines_Cons del: set_simps)
  then show ?thesis
    using assms le drop_within_leading_space leading_space_length_drop by auto
qed

theorem insert_text_dedent_witness:
  "content snippet_indented = js ''  for x:'' # [js ''      y'', js ''    z''] \<and>
   (\<exists>c. to_completion_item snippet_indented = Inr c \<and>
        insertText c = join newline [js ''for x:'', js ''    y'', js ''  z''])"
  using insert_text_dedent [of snippet_indented "js ''  for x:''" "[js ''      y'', js ''    z'']"]
  by (auto simp: snippet_indented_def example_leading_space) (simp add: js_def)

text \<open>
  C7. A block capture (a register type that starts with the byte 0x16) is stored, if it is
  stored, under the register type \<^verbatim>\<open>'^v'\<close>; and a record stored by such an event never
  contributes to a completion result: with or without it in the store, in any place, the
  provider returns the same, for every configuration, language, typed input and limit.
\<close>

theorem block_capture_never_completed:
  assumes "startsWith (ev_regtype event) [0x16]"
  shows "\<exists>new. recorded (calls (snd (callback cfg api event doc_opt w))) = recorded (calls w) @ new
           \<and> (\<forall>item \<in> set new.
                 regtype item = js ''^v'' \<and> content item = ev_regcontents event \<and>
                 (\<forall>cfg' l opt xs ys.
                    provideCompletionItems cfg' l opt (Inr (xs @ item # ys)) =
                      provideCompletionItems cfg' l opt (Inr (xs @ ys))))"
proof -
  from callback_recorded [of cfg api event doc_opt w]
  consider
    (same) "recorded (calls (snd (callback cfg api event doc_opt w))) = recorded (calls w)"
  | (added) p ft where "recorded (calls (snd (callback cfg api event doc_opt w))) =
        recorded (calls w) @
          [\<lparr>content = ev_regcontents event, regtype = js ''^v'', path = p,
            filetype = ft\<rparr>]"
    using assms by auto
  then show ?thesis
  proof cases
    case same
    then show ?thesis by simp
  next
    case (added p ft)
    then show ?thesis
      by (auto intro!: completion_drops_block_record)
  qed
qed

theorem block_capture_never_completed_witness:
  "startsWith (ev_regtype yank_block) [0x16] \<and>
   recorded (calls (snd (callback example_config example_editor yank_block
     (Some example_document) example_world))) \<noteq> [] \<and>
   (\<exists>new. recorded (calls (snd (callback example_config example_editor yank_block
              (Some example_document) example_world))) = recorded (calls example_world) @ new
           \<and> (\<forall>item \<in> set new.
                 regtype item = js ''^v'' \<and> content item = ev_regcontents yank_block \<and>
                 (\<forall>cfg' l opt xs ys.
                    provideCompletionItems cfg' l opt (Inr (xs @ item # ys)) =
                      provideCompletionItems cfg' l opt (Inr (xs @ ys)))))"
proof -
  have run: "recorded (calls (snd (callback example_config example_editor yank_block
     (Some example_document) example_world))) \<noteq> []"
    by (simp add: yank_block_def example_defs run_defs example_facts recorded_def)
  have block: "startsWith (ev_regtype yank_block) [0x16]"
    by (simp add: yank_block_def regtype_literals)
  show ?thesis
    using block run
      block_capture_never_completed
        [OF block, of example_config example_editor "Some example_document" example_world]
    by blast
qed

text \<open>
  C8. Claim: a non-block record is kept by the language and prefix filter if and only if
  its language is the document's and its first content line, with only the leading
  whitespace removed, starts with the typed prefix. The code calls \<^verbatim>\<open>trim()\<close>, which
  removes trailing whitespace too: the record with the first line \<^verbatim>\<open>"foo "\<close> is dropped
  for the typed prefix \<^verbatim>\<open>"foo "\<close>, although the line starts with it.
\<close>

theorem leading_only_prefix_counterexample:
  "regtype snippet_trailing_space \<noteq> js ''^v'' \<and>
   content snippet_trailing_space = [js ''foo ''] \<and>
   filetype snippet_trailing_space = js ''python'' \<and>
   startsWith (replace_leading_space (js ''foo '')) (js ''foo '') \<and>
   keep_item (js ''python'') (js ''foo '') snippet_trailing_space = Inr False"
  by (simp add: snippet_trailing_space_def regtype_literals example_trims keep_item_def)
     (simp add: js_def startsWith_def)

text \<open>
  C8, as the code has it: a non-block record with a first content line is kept if and only
  if its language is the document's and that line, with leading and trailing whitespace
  removed, starts with the typed prefix. For a typed prefix that does not end in whitespace
  this is the same as removing the leading whitespace only.
\<close>

theorem kept_iff_language_and_trimmed_prefix:
  assumes "regtype o' \<noteq> js ''^v''" and "content o' = s # rest"
  shows "keep_item languageId inp o' =
           Inr (filetype o' = languageId \<and> startsWith (trim s) inp)
       \<and> (inp \<noteq> [] \<and> \<not> is_space (last inp) \<longrightarrow>
            keep_item languageId inp o' =
              Inr (filetype o' = languageId \<and> startsWith (replace_leading_space s) inp))"
  using assms trim_prefix_leading_only [of inp s]
  by (auto simp: keep_item_def)

theorem kept_iff_language_and_trimmed_prefix_witness:
  "regtype snippet_foo \<noteq> js ''^v'' \<and> content snippet_foo = js ''foo'' # [js ''bar''] \<and>
   js ''fo'' \<noteq> [] \<and> \<not> is_space (last (js ''fo'')) \<and>
   keep_item (js ''python'') (js ''fo'') snippet_foo = Inr True"
  using kept_iff_language_and_trimmed_prefix
    [of snippet_foo "js ''foo''" "[js ''bar'']" "js ''python''" "js ''fo''"]
  by (simp add: snippet_foo_def regtype_literals example_trims)
     (simp add: js_def startsWith_def is_space_def)

text \<open>
  C10. With \<^verbatim>\<open>enableCompletion\<close> off the provider resolves with the empty array, whatever
  the request and the store are: it neither rejects nor resolves with \<^verbatim>\<open>undefined\<close>.
\<close>

theorem completion_disabled_empty:
  "\<not> enableCompletion cfg \<Longrightarrow>
     provideCompletionItems cfg languageId option_ctx loaded = Inr (Some [])"
  by (simp add: provideCompletionItems_def)

theorem completion_disabled_empty_witness:
  "\<not> enableCompletion (example_config\<lparr>enableCompletion := False\<rparr>) \<and>
   provideCompletionItems (example_config\<lparr>enableCompletion := False\<rparr>) (js ''python'')
     (Some typed_fo) (Inr [snippet_foo]) = Inr (Some [])"
  using completion_disabled_empty
    [of "example_config\<lparr>enableCompletion := False\<rparr>" "js ''python''" "Some typed_fo"
      "Inr [snippet_foo]"]
  by simp

end
